theory Spec2Isabelle
  imports Main "HOL-Library.Word"
begin

section \<open>Python values, types and errors\<close>

text \<open>
  The exceptions the two modules can raise. \<open>ValidationError\<close> and \<open>SpannerError\<close> are
  the classes of \<open>spanner_orm.error\<close>; \<open>KeyError\<close> is Python's, raised by a dictionary
  read of a missing key; \<open>FetchError\<close> stands for whatever the row-fetch collaborator
  raises when a query fails. The message of an exception is not modelled.
\<close>

datatype error = ValidationError | SpannerError | KeyError | FetchError

text \<open>
  The values a caller can hand to \<open>Field.validate\<close>. A float carries its 64 bits, a
  \<open>datetime\<close> a count of microseconds. An instance of a subclass of one of these
  classes is a value of that class; \<open>PyObject\<close> is an instance of a class that is
  none of them and no subclass of one, given by the class name.
\<close>

datatype py_value =
    PyNone
  | PyBool bool
  | PyInt int
  | PyFloat "64 word"
  | PyStr string
  | PyBytes string
  | PyList "py_value list"
  | PyDatetime int
  | PyObject string

datatype py_type = T_bool | T_int | T_float | T_str | T_bytes | T_list | T_datetime

text \<open>
  Python's \<open>isinstance\<close> on these classes. \<open>bool\<close> is a subclass of \<open>int\<close>, so a
  \<open>bool\<close> is an instance of both.
\<close>

fun isinstance :: "py_value \<Rightarrow> py_type \<Rightarrow> bool" where
  "isinstance PyNone t = False"
| "isinstance (PyBool b) t = (t = T_bool \<or> t = T_int)"
| "isinstance (PyInt i) t = (t = T_int)"
| "isinstance (PyFloat x) t = (t = T_float)"
| "isinstance (PyStr s) t = (t = T_str)"
| "isinstance (PyBytes s) t = (t = T_bytes)"
| "isinstance (PyList xs) t = (t = T_list)"
| "isinstance (PyDatetime d) t = (t = T_datetime)"
| "isinstance (PyObject c) t = False"

subsection \<open>Strings\<close>

text \<open>
  \<open>str.replace(old, new)\<close>: every occurrence of \<open>old\<close>, found from the left and not
  overlapping, becomes \<open>new\<close>. With an empty \<open>old\<close> Python puts \<open>new\<close> before every
  character and at the end.
\<close>

function replace :: "string \<Rightarrow> string \<Rightarrow> string \<Rightarrow> string" where
  "replace old new s =
     (if old = [] then new @ concat (map (\<lambda>c. c # new) s)
      else if s = [] then []
      else if take (length old) s = old then new @ replace old new (drop (length old) s)
      else hd s # replace old new (tl s))"
  by pat_completeness auto
termination
  by (relation "measure (\<lambda>(old, new, s). length s)") auto

declare replace.simps [simp del]

text \<open>The decimal digits of a natural number, and \<open>str\<close> of a Python \<open>int\<close>.\<close>

definition digit :: "nat \<Rightarrow> char" where
  "digit d = ''0123456789'' ! d"

function str_nat :: "nat \<Rightarrow> string" where
  "str_nat n =
     (if n < 10 then [digit n]
      else str_nat (n div 10) @ [digit (n mod 10)])"
  by pat_completeness auto
termination
  by (relation "measure (\<lambda>n. n)") auto

declare str_nat.simps [simp del]

definition str_int :: "int \<Rightarrow> string" where
  "str_int i = (if i < 0 then CHR ''-'' # str_nat (nat (- i)) else str_nat (nat i))"

section \<open>Field types (field.py)\<close>

text \<open>
  The eight subclasses of \<open>FieldType\<close>. Their methods are static, so each method is a
  function of the class.
\<close>

datatype FieldType =
  Boolean | Integer | Float | String | StringArray | IntArray | Timestamp | BytesBase64

fun type_ddl :: "FieldType \<Rightarrow> string" where
  "type_ddl Boolean = ''BOOL''"
| "type_ddl Integer = ''INT64''"
| "type_ddl Float = ''FLOAT64''"
| "type_ddl String = ''STRING(MAX)''"
| "type_ddl StringArray = ''ARRAY<STRING(MAX)>''"
| "type_ddl IntArray = ''ARRAY<INT64>''"
| "type_ddl Timestamp = ''TIMESTAMP''"
| "type_ddl BytesBase64 = ''BYTES(MAX)''"

text \<open>
  \<open>validate_type\<close> raises \<open>ValidationError\<close> or returns nothing. For \<open>BytesBase64\<close> the
  check ends in \<open>base64.b64decode(value, altchars=None, validate=True)\<close> of the standard
  library, which is not part of the program: \<open>b64\<close> says for which byte strings that
  call returns without \<open>binascii.Error\<close>.
\<close>

fun validate_type :: "(string \<Rightarrow> bool) \<Rightarrow> FieldType \<Rightarrow> py_value \<Rightarrow> error + unit" where
  "validate_type b64 Boolean v =
     (if \<not> isinstance v T_bool then Inl ValidationError else Inr ())"
| "validate_type b64 Integer v =
     (if \<not> isinstance v T_int then Inl ValidationError else Inr ())"
| "validate_type b64 Float v =
     (if \<not> (isinstance v T_int \<or> isinstance v T_float) then Inl ValidationError else Inr ())"
| "validate_type b64 String v =
     (if \<not> isinstance v T_str then Inl ValidationError else Inr ())"
| "validate_type b64 StringArray v =
     (case v of
        PyList items \<Rightarrow>
          (if list_all (\<lambda>item. isinstance item T_str) items then Inr () else Inl ValidationError)
      | _ \<Rightarrow> Inl ValidationError)"
| "validate_type b64 IntArray v =
     (case v of
        PyList items \<Rightarrow>
          (if list_all (\<lambda>item. isinstance item T_int) items then Inr () else Inl ValidationError)
      | _ \<Rightarrow> Inl ValidationError)"
| "validate_type b64 Timestamp v =
     (if \<not> isinstance v T_datetime then Inl ValidationError else Inr ())"
| "validate_type b64 BytesBase64 v =
     (case v of
        PyBytes bs \<Rightarrow> (if b64 bs then Inr () else Inl ValidationError)
      | _ \<Rightarrow> Inl ValidationError)"

text \<open>
  \<open>matches\<close>. \<open>type[0:n]\<close> is \<open>take n\<close>, \<open>type[-2:]\<close> the last two characters (the whole
  string when it is shorter), \<open>type[-1]\<close> the last character, and
  \<open>type.startswith('TIMESTAMP')\<close> compares the first nine. Python's \<open>and\<close> reads
  \<open>type[-1]\<close> only after the prefix test has succeeded, when the string is not empty, so
  the index never fails; the model keeps that order with \<open>if\<close>.
\<close>

fun matches :: "FieldType \<Rightarrow> string \<Rightarrow> bool" where
  "matches Boolean s = (s = ''BOOL'')"
| "matches Integer s = (s = ''INT64'')"
| "matches Float s = (s = ''FLOAT64'')"
| "matches String s = (if take 7 s = ''STRING('' then last s = CHR '')'' else False)"
| "matches StringArray s =
     (if take 13 s = ''ARRAY<STRING('' then drop (length s - 2) s = '')>'' else False)"
| "matches IntArray s = (s = ''ARRAY<INT64>'')"
| "matches Timestamp s = (take 9 s = ''TIMESTAMP'')"
| "matches BytesBase64 s = (if take 6 s = ''BYTES('' then last s = CHR '')'' else False)"

fun support_length :: "FieldType \<Rightarrow> bool" where
  "support_length Boolean = False"
| "support_length Integer = False"
| "support_length Float = False"
| "support_length String = True"
| "support_length StringArray = True"
| "support_length IntArray = False"
| "support_length Timestamp = False"
| "support_length BytesBase64 = True"

fun support_commit_timestamp :: "FieldType \<Rightarrow> bool" where
  "support_commit_timestamp Boolean = False"
| "support_commit_timestamp Integer = False"
| "support_commit_timestamp Float = False"
| "support_commit_timestamp String = False"
| "support_commit_timestamp StringArray = False"
| "support_commit_timestamp IntArray = False"
| "support_commit_timestamp Timestamp = True"
| "support_commit_timestamp BytesBase64 = False"

definition ALL_TYPES :: "FieldType list" where
  "ALL_TYPES =
     [Boolean, Integer, IntArray, Float, String, StringArray, Timestamp, BytesBase64]"

text \<open>
  Modelled from the spec: the resolution of a catalog type string to a field type
  (\<open>ColumnSchema.field_type\<close>, whose module is not among the sources). The spec: iterate
  the fixed variant list in its declared order and return the first whose \<open>matches\<close>
  succeeds; no match is an unrecoverable schema error. \<open>first_match\<close> is that iteration
  over any list, \<open>resolve_type\<close> the one over \<open>ALL_TYPES\<close>.
\<close>

primrec first_match :: "FieldType list \<Rightarrow> string \<Rightarrow> error + FieldType" where
  "first_match [] s = Inl SpannerError"
| "first_match (t # ts) s = (if matches t s then Inr t else first_match ts s)"

definition resolve_type :: "string \<Rightarrow> error + FieldType" where
  "resolve_type s = first_match ALL_TYPES s"

section \<open>Field (field.py)\<close>

text \<open>
  The attributes of a \<open>Field\<close> object: \<open>name\<close> is \<open>None\<close> until the owner sets it,
  \<open>position\<close> does not exist until the owner sets it. \<open>field_type\<close>, \<open>nullable\<close>,
  \<open>primary_key\<close>, \<open>field_length\<close> and \<open>allow_commit_timestamp\<close> are the attributes
  \<open>_type\<close>, \<open>_nullable\<close>, \<open>_primary_key\<close>, \<open>_length\<close> and \<open>_allow_commit_timestamp\<close>;
  the first three selectors are also the methods of the same names, which return the
  attribute.
\<close>

record Field =
  name :: "string option"
  field_type :: FieldType
  nullable :: bool
  primary_key :: bool
  field_length :: int
  allow_commit_timestamp :: bool
  position :: "int option"

text \<open>
  \<open>Field.__init__\<close>: the attributes are stored, then the three checks run in the
  source's order. \<open>self._length\<close> as a condition is true for every integer but 0.
\<close>

definition Field_init :: "FieldType \<Rightarrow> bool \<Rightarrow> bool \<Rightarrow> int \<Rightarrow> bool \<Rightarrow> error + Field" where
  "Field_init ft nl pk len act =
     (let self = \<lparr>name = None, field_type = ft, nullable = nl, primary_key = pk,
                   field_length = len, allow_commit_timestamp = act, position = None\<rparr>
      in if field_length self < 0 then Inl ValidationError
         else if \<not> support_length (field_type self) \<and> field_length self \<noteq> 0
           then Inl ValidationError
         else if \<not> support_commit_timestamp (field_type self) \<and> allow_commit_timestamp self
           then Inl ValidationError
         else Inr self)"

definition ddl :: "Field \<Rightarrow> string" where
  "ddl self =
     (let base_ddl = type_ddl (field_type self);
          base_ddl =
            (if field_length self \<noteq> 0
             then replace ''(MAX)'' (''('' @ str_int (field_length self) @ '')'') base_ddl
             else base_ddl);
          options =
            (if allow_commit_timestamp self then '' OPTIONS (allow_commit_timestamp=true)''
             else [])
      in if nullable self then base_ddl @ options
         else base_ddl @ '' NOT NULL'' @ options)"

definition validate :: "(string \<Rightarrow> bool) \<Rightarrow> Field \<Rightarrow> py_value \<Rightarrow> error + unit" where
  "validate b64 self v =
     (if v = PyNone
      then (if \<not> nullable self then Inl ValidationError else Inr ())
      else validate_type b64 (field_type self) v)"

section \<open>The catalog (admin/metadata.py)\<close>

subsection \<open>Dictionaries\<close>

text \<open>
  A Python \<open>dict\<close> is a list of key-value pairs with distinct keys, in insertion order:
  \<open>map_of d k\<close> reads a key, \<open>setitem k v d\<close> is \<open>d[k] = v\<close> (the value of a present
  key is replaced where it stands, a new key goes to the end). \<open>dd_get dflt d k\<close> is
  the value that the read \<open>d[k]\<close> of a \<open>defaultdict\<close> returns: the stored value, or the
  default, which the read also stores under \<open>k\<close>.
\<close>

type_synonym ('k, 'v) dict = "('k \<times> 'v) list"

primrec setitem :: "'k \<Rightarrow> 'v \<Rightarrow> ('k, 'v) dict \<Rightarrow> ('k, 'v) dict" where
  "setitem k v [] = [(k, v)]"
| "setitem k v (p # ps) = (if fst p = k then (k, v) # ps else p # setitem k v ps)"

definition dd_get :: "'v \<Rightarrow> ('k, 'v) dict \<Rightarrow> 'k \<Rightarrow> 'v" where
  "dd_get dflt d k = (case map_of d k of None \<Rightarrow> dflt | Some v \<Rightarrow> v)"

subsection \<open>Rows of the catalog tables, and the row-fetch collaborator\<close>

text \<open>
  Modelled from the spec: the row classes of \<open>spanner_orm.admin\<close> (\<open>ColumnSchema\<close>,
  \<open>TableSchema\<close>, \<open>IndexColumnSchema\<close>, \<open>IndexSchema\<close>) are not among the sources. A
  row has the attributes that \<open>metadata.py\<close> reads. For a column row, \<open>col_nullable\<close>
  is what its method \<open>nullable()\<close> returns and \<open>col_spanner_type\<close> the wire type
  string that its method \<open>field_type()\<close> resolves (\<open>resolve_type\<close> above). The prefixes
  keep the attribute names of the four classes apart.
\<close>

record ColumnSchema =
  col_table_name :: string
  col_column_name :: string
  col_ordinal_position :: int
  col_spanner_type :: string
  col_nullable :: bool

record TableSchema =
  tbl_table_name :: string
  tbl_parent_table_name :: "string option"

record IndexColumnSchema =
  ic_table_name :: string
  ic_index_name :: string
  ic_column_name :: string
  ic_ordinal_position :: "int option"

record IndexSchema =
  ix_table_name :: string
  ix_index_name :: string
  ix_parent_table_name :: "string option"
  ix_is_null_filtered :: bool
  ix_is_unique :: bool

text \<open>
  The four queries of \<open>metadata.py\<close>, and what the collaborator answers to each at the
  time of a call: the rows, in the order it returns them, or an error.
\<close>

datatype query = ColumnsQuery | TablesQuery | IndexColumnsQuery | IndexesQuery

record catalog =
  column_rows :: "error + ColumnSchema list"
  table_rows :: "error + TableSchema list"
  index_column_rows :: "error + IndexColumnSchema list"
  index_rows :: "error + IndexSchema list"

subsection \<open>Index and model descriptor\<close>

text \<open>
  Modelled from the spec: \<open>Index\<close> (\<open>spanner_orm/index.py\<close> is not among the sources).
  The spec: a structural container with no algorithm of its own, immutable after
  construction. Its attributes are the arguments \<open>metadata.py\<close> constructs it with;
  \<open>index_name\<close> is the attribute \<open>name\<close>.
\<close>

record Index =
  columns :: "string list"
  index_name :: string
  parent :: "string option"
  null_filtered :: bool
  unique :: bool
  storing_columns :: "string list"

text \<open>
  Objects are referred to by address. \<open>Field\<close> objects and model classes live in two
  heaps, lists indexed by address; a new object goes to the end.
\<close>

type_synonym addr = nat

text \<open>
  The value of \<open>meta.interleaved\<close>: \<open>None\<close>, the name of the parent table, or (after the
  second pass of \<open>models\<close>) the parent's model class itself.
\<close>

datatype interleaved = INone | IName string | IModel addr

text \<open>
  Modelled from the spec: \<open>Metadata\<close> and the model class (\<open>spanner_orm/model.py\<close> is
  not among the sources). The spec: a model descriptor holds its table name, its fields
  (name to \<open>Field\<close>), its indexes (name to \<open>Index\<close>) and its interleaved parent; a
  finalize step locks it against further mutation. A \<open>Model\<close> is the class
  \<open>Model_<table>\<close> that \<open>models\<close> creates, with its \<open>meta\<close>.
\<close>

record Metadata =
  table :: string
  meta_fields :: "(string, addr) dict"
  interleaved :: interleaved
  meta_indexes :: "(string, Index) dict"
  model_class :: addr
  finalized :: bool

record Model =
  class_name :: string
  meta :: Metadata

subsection \<open>The state of the process\<close>

text \<open>
  One entry of \<open>tables()\<close>: the dictionary with the keys \<open>'parent_table'\<close> and
  \<open>'fields'\<close> (\<open>table_fields\<close>).
\<close>

record table_data =
  parent_table :: "string option"
  table_fields :: "(string, addr) dict"

text \<open>
  \<open>tables_cache\<close>, \<open>indexes_cache\<close> and \<open>models_cache\<close> are the class attributes
  \<open>_tables\<close>, \<open>_indexes\<close> and \<open>_models\<close> (\<open>None\<close> until computed); \<open>fetched\<close> lists
  the queries sent to the row-fetch collaborator so far.
\<close>

record state =
  field_heap :: "Field list"
  model_heap :: "Model list"
  tables_cache :: "(string, table_data) dict option"
  indexes_cache :: "(string, (string, Index) dict) dict option"
  models_cache :: "(string, addr) dict option"
  fetched :: "query list"

subsection \<open>tables\<close>

text \<open>
  The loop over the column rows. \<open>column_row.field_type()\<close> can raise; the constructor
  is called with the default length and flags. The new object gets its \<open>name\<close> and
  \<open>position\<close> and is stored in \<open>column_data[table_name][column_name]\<close>, where the read
  of \<open>column_data[table_name]\<close> makes an empty dictionary for a new table.
\<close>

fun column_loop ::
  "ColumnSchema list \<Rightarrow> (string, (string, addr) dict) dict \<Rightarrow> state \<Rightarrow>
   (error + (string, (string, addr) dict) dict) \<times> state" where
  "column_loop [] column_data st = (Inr column_data, st)"
| "column_loop (column_row # rows) column_data st =
     (case resolve_type (col_spanner_type column_row) of
        Inl e \<Rightarrow> (Inl e, st)
      | Inr ft \<Rightarrow>
          (case Field_init ft (col_nullable column_row) False 0 False of
             Inl e \<Rightarrow> (Inl e, st)
           | Inr new_field \<Rightarrow>
               (let new_field = new_field\<lparr>name := Some (col_column_name column_row)\<rparr>;
                    new_field = new_field\<lparr>position := Some (col_ordinal_position column_row)\<rparr>;
                    a = length (field_heap st);
                    st = st\<lparr>field_heap := field_heap st @ [new_field]\<rparr>;
                    d = dd_get [] column_data (col_table_name column_row);
                    column_data =
                      setitem (col_table_name column_row)
                        (setitem (col_column_name column_row) a d) column_data
                in column_loop rows column_data st)))"

text \<open>
  The loop over the table rows. The read \<open>column_data[name]\<close> gives the empty
  dictionary for a table without columns.
\<close>

fun table_loop ::
  "TableSchema list \<Rightarrow> (string, (string, addr) dict) dict \<Rightarrow> (string, table_data) dict \<Rightarrow>
   (string, table_data) dict" where
  "table_loop [] column_data table_data = table_data"
| "table_loop (table_row # rows) column_data table_data =
     (let tname = tbl_table_name table_row;
          table_data =
            setitem tname
              \<lparr>parent_table = tbl_parent_table_name table_row,
               table_fields = dd_get [] column_data tname\<rparr> table_data
      in table_loop rows column_data table_data)"

definition tables :: "catalog \<Rightarrow> state \<Rightarrow> (error + (string, table_data) dict) \<times> state" where
  "tables db st =
     (case tables_cache st of
        Some t \<Rightarrow> (Inr t, st)
      | None \<Rightarrow>
          (let st = st\<lparr>fetched := fetched st @ [ColumnsQuery]\<rparr> in
           case column_rows db of
             Inl e \<Rightarrow> (Inl e, st)
           | Inr cols \<Rightarrow>
               (case column_loop cols [] st of
                  (Inl e, st) \<Rightarrow> (Inl e, st)
                | (Inr column_data, st) \<Rightarrow>
                    (let st = st\<lparr>fetched := fetched st @ [TablesQuery]\<rparr> in
                     case table_rows db of
                       Inl e \<Rightarrow> (Inl e, st)
                     | Inr tbls \<Rightarrow>
                         (let table_data = table_loop tbls column_data []
                          in (Inr table_data, st\<lparr>tables_cache := Some table_data\<rparr>))))))"

subsection \<open>indexes\<close>

text \<open>
  The loop over the index-column rows: a row with an ordinal position appends its column
  to \<open>index_columns[key]\<close>, a row without one to \<open>storing_columns[key]\<close>.
\<close>

fun index_column_loop ::
  "IndexColumnSchema list \<Rightarrow> (string \<times> string, string list) dict \<Rightarrow>
   (string \<times> string, string list) dict \<Rightarrow>
   (string \<times> string, string list) dict \<times> (string \<times> string, string list) dict" where
  "index_column_loop [] index_columns storing = (index_columns, storing)"
| "index_column_loop (schema # rows) index_columns storing =
     (let key = (ic_table_name schema, ic_index_name schema) in
      if ic_ordinal_position schema \<noteq> None
      then index_column_loop rows
             (setitem key (dd_get [] index_columns key @ [ic_column_name schema]) index_columns)
             storing
      else index_column_loop rows index_columns
             (setitem key (dd_get [] storing key @ [ic_column_name schema]) storing))"

text \<open>The loop over the index rows: one \<open>Index\<close> per row, stored under its table and name.\<close>

fun index_loop ::
  "IndexSchema list \<Rightarrow> (string \<times> string, string list) dict \<Rightarrow>
   (string \<times> string, string list) dict \<Rightarrow> (string, (string, Index) dict) dict \<Rightarrow>
   (string, (string, Index) dict) dict" where
  "index_loop [] index_columns storing indexes = indexes"
| "index_loop (schema # rows) index_columns storing indexes =
     (let key = (ix_table_name schema, ix_index_name schema);
          new_index =
            \<lparr>columns = dd_get [] index_columns key,
             index_name = ix_index_name schema,
             parent = ix_parent_table_name schema,
             null_filtered = ix_is_null_filtered schema,
             unique = ix_is_unique schema,
             storing_columns = dd_get [] storing key\<rparr>;
          indexes =
            setitem (ix_table_name schema)
              (setitem (ix_index_name schema) new_index
                 (dd_get [] indexes (ix_table_name schema))) indexes
      in index_loop rows index_columns storing indexes)"

definition indexes ::
  "catalog \<Rightarrow> state \<Rightarrow> (error + (string, (string, Index) dict) dict) \<times> state" where
  "indexes db st =
     (case indexes_cache st of
        Some i \<Rightarrow> (Inr i, st)
      | None \<Rightarrow>
          (let st = st\<lparr>fetched := fetched st @ [IndexColumnsQuery]\<rparr> in
           case index_column_rows db of
             Inl e \<Rightarrow> (Inl e, st)
           | Inr index_column_schemas \<Rightarrow>
               (let (index_columns, storing) = index_column_loop index_column_schemas [] [];
                    st = st\<lparr>fetched := fetched st @ [IndexesQuery]\<rparr>
                in case index_rows db of
                     Inl e \<Rightarrow> (Inl e, st)
                   | Inr index_schemas \<Rightarrow>
                       (let ixs = index_loop index_schemas index_columns storing []
                        in (Inr ixs, st\<lparr>indexes_cache := Some ixs\<rparr>)))))"

text \<open>
  The index-column rows of one index, in the order fetched: those with an ordinal
  position (the key columns) and those without (the storing columns).
\<close>

definition key_rows :: "string \<Rightarrow> string \<Rightarrow> IndexColumnSchema list \<Rightarrow> IndexColumnSchema list" where
  "key_rows t i rows =
     filter (\<lambda>r. ic_table_name r = t \<and> ic_index_name r = i \<and> ic_ordinal_position r \<noteq> None) rows"

definition storing_rows :: "string \<Rightarrow> string \<Rightarrow> IndexColumnSchema list \<Rightarrow> IndexColumnSchema list" where
  "storing_rows t i rows =
     filter (\<lambda>r. ic_table_name r = t \<and> ic_index_name r = i \<and> ic_ordinal_position r = None) rows"

text \<open>
  The result of \<open>indexes()\<close> has, under table \<open>t\<close> and name \<open>i\<close>, an index with the
  columns collected for that key.
\<close>

definition has_index ::
  "(string \<times> string, string list) dict \<Rightarrow> (string \<times> string, string list) dict \<Rightarrow>
   string \<Rightarrow> string \<Rightarrow> (string, (string, Index) dict) dict \<Rightarrow> bool" where
  "has_index ic sc t i ixs \<longleftrightarrow>
     (\<exists>tix idx. map_of ixs t = Some tix \<and> map_of tix i = Some idx \<and>
        columns idx = dd_get [] ic (t, i) \<and> storing_columns idx = dd_get [] sc (t, i) \<and>
        index_name idx = i)"

subsection \<open>models\<close>

text \<open>
  \<open>field._primary_key = field.name in primary_keys\<close> for the fields of one table, given
  by their addresses. A field whose name is still \<open>None\<close> is in no set of strings.
\<close>

definition assign_primary_key :: "string set \<Rightarrow> Field \<Rightarrow> Field" where
  "assign_primary_key primary_keys f =
     f\<lparr>primary_key := (case name f of None \<Rightarrow> False | Some n \<Rightarrow> n \<in> primary_keys)\<rparr>"

primrec primary_key_loop :: "addr list \<Rightarrow> string set \<Rightarrow> Field list \<Rightarrow> Field list" where
  "primary_key_loop [] primary_keys h = h"
| "primary_key_loop (a # as) primary_keys h =
     primary_key_loop as primary_keys (h[a := assign_primary_key primary_keys (h ! a)])"

text \<open>
  The class \<open>Model_<table>\<close> made for a table, with the \<open>Metadata\<close> that the first
  pass gives it: the table's fields, its parent as named in the catalog, the table's
  indexes, and the class itself.
\<close>

definition new_model :: "string \<Rightarrow> table_data \<Rightarrow> (string, Index) dict \<Rightarrow> addr \<Rightarrow> Model" where
  "new_model table_name td table_indexes klass =
     \<lparr>class_name = ''Model_'' @ table_name,
      meta = \<lparr>table = table_name,
              meta_fields = table_fields td,
              interleaved = (case parent_table td of None \<Rightarrow> INone | Some p \<Rightarrow> IName p),
              meta_indexes = table_indexes,
              model_class = klass,
              finalized = False\<rparr>\<rparr>"

text \<open>
  The first pass. \<open>ixs\<close> is the dictionary that \<open>indexes()\<close> returned, the very object
  cached in \<open>_indexes\<close>: the read \<open>indexes[table_name]\<close> of a table without indexes
  stores an empty dictionary there, in which the lookup of the primary index then fails.
  \<open>pidx\<close> is the constant \<open>Index.PRIMARY_INDEX\<close>, whose value the sources do not give.
  The class is created before the loop over the fields and gets its \<open>meta\<close> after it;
  nothing in between can fail or see the class, so the model creates it, with its
  \<open>meta\<close>, in one step.
\<close>

fun pass1 ::
  "string \<Rightarrow> (string, table_data) dict \<Rightarrow> (string, (string, Index) dict) dict \<Rightarrow>
   (string, addr) dict \<Rightarrow> state \<Rightarrow> (error + (string, addr) dict) \<times> state" where
  "pass1 pidx [] ixs models st = (Inr models, st)"
| "pass1 pidx ((table_name, td) # rest) ixs models st =
     (case map_of ixs table_name of
        None \<Rightarrow> (Inl KeyError, st\<lparr>indexes_cache := Some (ixs @ [(table_name, [])])\<rparr>)
      | Some table_indexes \<Rightarrow>
          (case map_of table_indexes pidx of
             None \<Rightarrow> (Inl KeyError, st)
           | Some primary_index \<Rightarrow>
               (let primary_keys = set (columns primary_index);
                    klass = length (model_heap st);
                    st = st\<lparr>field_heap :=
                           primary_key_loop (map snd (table_fields td)) primary_keys
                             (field_heap st)\<rparr>;
                    st = st\<lparr>model_heap :=
                           model_heap st @ [new_model table_name td table_indexes klass]\<rparr>
                in pass1 pidx rest ixs (setitem table_name klass models) st)))"

text \<open>
  Modelled from the spec: \<open>Metadata.finalize\<close>. The spec: a finalize step that locks the
  descriptor against further mutation and may perform consistency checks. \<open>chk\<close> is the
  outcome of those checks for the descriptor at an address in a state.
\<close>

definition finalize :: "(state \<Rightarrow> addr \<Rightarrow> bool) \<Rightarrow> addr \<Rightarrow> state \<Rightarrow> (error + unit) \<times> state" where
  "finalize chk a st =
     (if chk st a
      then (Inr (),
            st\<lparr>model_heap :=
                 (model_heap st)[a := (model_heap st ! a)
                    \<lparr>meta := (meta (model_heap st ! a))\<lparr>finalized := True\<rparr>\<rparr>]\<rparr>)
      else (Inl SpannerError, st))"

text \<open>
  \<open>if table_model.meta.interleaved: table_model.meta.interleaved =
  models[table_model.meta.interleaved]\<close>. \<open>None\<close> and the empty string are false. The
  lookup of a missing name raises \<open>KeyError\<close>, as would the lookup of a class.
\<close>

definition resolve_interleaved ::
  "(string, addr) dict \<Rightarrow> addr \<Rightarrow> state \<Rightarrow> (error + unit) \<times> state" where
  "resolve_interleaved models a st =
     (case interleaved (meta (model_heap st ! a)) of
        INone \<Rightarrow> (Inr (), st)
      | IName p \<Rightarrow>
          (if p = [] then (Inr (), st)
           else case map_of models p of
                  None \<Rightarrow> (Inl KeyError, st)
                | Some parent_model \<Rightarrow>
                    (Inr (),
                     st\<lparr>model_heap :=
                          (model_heap st)[a := (model_heap st ! a)
                             \<lparr>meta := (meta (model_heap st ! a))
                                \<lparr>interleaved := IModel parent_model\<rparr>\<rparr>]\<rparr>))
      | IModel c \<Rightarrow> (Inl KeyError, st))"

text \<open>The second pass, over \<open>models.values()\<close>.\<close>

fun pass2 ::
  "(state \<Rightarrow> addr \<Rightarrow> bool) \<Rightarrow> addr list \<Rightarrow> (string, addr) dict \<Rightarrow> state \<Rightarrow>
   (error + unit) \<times> state" where
  "pass2 chk [] models st = (Inr (), st)"
| "pass2 chk (table_model # rest) models st =
     (case resolve_interleaved models table_model st of
        (Inl e, st) \<Rightarrow> (Inl e, st)
      | (Inr u, st) \<Rightarrow>
          (case finalize chk table_model st of
             (Inl e, st) \<Rightarrow> (Inl e, st)
           | (Inr u, st) \<Rightarrow> pass2 chk rest models st))"

definition models ::
  "string \<Rightarrow> (state \<Rightarrow> addr \<Rightarrow> bool) \<Rightarrow> catalog \<Rightarrow> state \<Rightarrow>
   (error + (string, addr) dict) \<times> state" where
  "models pidx chk db st =
     (case models_cache st of
        Some m \<Rightarrow> (Inr m, st)
      | None \<Rightarrow>
          (case tables db st of
             (Inl e, st) \<Rightarrow> (Inl e, st)
           | (Inr tbls, st) \<Rightarrow>
               (case indexes db st of
                  (Inl e, st) \<Rightarrow> (Inl e, st)
                | (Inr ixs, st) \<Rightarrow>
                    (case pass1 pidx tbls ixs [] st of
                       (Inl e, st) \<Rightarrow> (Inl e, st)
                     | (Inr ms, st) \<Rightarrow>
                         (case pass2 chk (map snd ms) ms st of
                            (Inl e, st) \<Rightarrow> (Inl e, st)
                          | (Inr u, st) \<Rightarrow> (Inr ms, st\<lparr>models_cache := Some ms\<rparr>))))))"

definition model ::
  "string \<Rightarrow> (state \<Rightarrow> addr \<Rightarrow> bool) \<Rightarrow> catalog \<Rightarrow> string \<Rightarrow> state \<Rightarrow>
   (error + addr option) \<times> state" where
  "model pidx chk db table_name st =
     (case models pidx chk db st of
        (Inl e, st) \<Rightarrow> (Inl e, st)
      | (Inr ms, st) \<Rightarrow> (Inr (map_of ms table_name), st))"

subsection \<open>The states a process can be in\<close>

text \<open>
  A process starts with the three class attributes \<open>None\<close>; from then on the state
  changes by calls of the three accessors, each against whatever the catalog answers at
  that time.
\<close>

inductive reachable :: "string \<Rightarrow> (state \<Rightarrow> addr \<Rightarrow> bool) \<Rightarrow> state \<Rightarrow> bool"
  for pidx :: string and chk :: "state \<Rightarrow> addr \<Rightarrow> bool" where
  start:
    "tables_cache st = None \<Longrightarrow> indexes_cache st = None \<Longrightarrow> models_cache st = None \<Longrightarrow>
     reachable pidx chk st"
| call_tables: "reachable pidx chk st \<Longrightarrow> reachable pidx chk (snd (tables db st))"
| call_indexes: "reachable pidx chk st \<Longrightarrow> reachable pidx chk (snd (indexes db st))"
| call_models: "reachable pidx chk st \<Longrightarrow> reachable pidx chk (snd (models pidx chk db st))"

text \<open>
  The states of a process in which every call made so far has returned (none has
  raised), from a start with nothing fetched.
\<close>

inductive returned :: "string \<Rightarrow> (state \<Rightarrow> addr \<Rightarrow> bool) \<Rightarrow> state \<Rightarrow> bool"
  for pidx :: string and chk :: "state \<Rightarrow> addr \<Rightarrow> bool" where
  fresh:
    "tables_cache st = None \<Longrightarrow> indexes_cache st = None \<Longrightarrow> models_cache st = None \<Longrightarrow>
     fetched st = [] \<Longrightarrow> returned pidx chk st"
| tables_returned:
    "returned pidx chk st \<Longrightarrow> tables db st = (Inr t, st') \<Longrightarrow> returned pidx chk st'"
| indexes_returned:
    "returned pidx chk st \<Longrightarrow> indexes db st = (Inr i, st') \<Longrightarrow> returned pidx chk st'"
| models_returned:
    "returned pidx chk st \<Longrightarrow> models pidx chk db st = (Inr m, st') \<Longrightarrow> returned pidx chk st'"

subsection \<open>Example catalogs\<close>

text \<open>
  A process that has just started, and two catalogs. In \<open>family_catalog\<close> the table
  \<open>B\<close> is interleaved in \<open>A\<close> and is fetched before it; \<open>B\<close> has an index \<open>IDX\<close> with
  key columns \<open>a\<close>, \<open>b\<close> and a storing column \<open>c\<close>. In \<open>orphan_catalog\<close> the table
  \<open>B\<close> has no index at all.
\<close>

definition initial_state :: state where
  "initial_state =
     \<lparr>field_heap = [], model_heap = [], tables_cache = None, indexes_cache = None,
      models_cache = None, fetched = []\<rparr>"

definition family_index_column_rows :: "IndexColumnSchema list" where
  "family_index_column_rows =
     [\<lparr>ic_table_name = ''B'', ic_index_name = ''IDX'', ic_column_name = ''c'',
       ic_ordinal_position = None\<rparr>,
      \<lparr>ic_table_name = ''A'', ic_index_name = ''PRIMARY_KEY'', ic_column_name = ''id'',
       ic_ordinal_position = Some 1\<rparr>,
      \<lparr>ic_table_name = ''B'', ic_index_name = ''IDX'', ic_column_name = ''a'',
       ic_ordinal_position = Some 1\<rparr>,
      \<lparr>ic_table_name = ''B'', ic_index_name = ''PRIMARY_KEY'', ic_column_name = ''id'',
       ic_ordinal_position = Some 1\<rparr>,
      \<lparr>ic_table_name = ''B'', ic_index_name = ''IDX'', ic_column_name = ''b'',
       ic_ordinal_position = Some 2\<rparr>]"

definition family_index_rows :: "IndexSchema list" where
  "family_index_rows =
     [\<lparr>ix_table_name = ''A'', ix_index_name = ''PRIMARY_KEY'', ix_parent_table_name = None,
       ix_is_null_filtered = False, ix_is_unique = True\<rparr>,
      \<lparr>ix_table_name = ''B'', ix_index_name = ''PRIMARY_KEY'', ix_parent_table_name = None,
       ix_is_null_filtered = False, ix_is_unique = True\<rparr>,
      \<lparr>ix_table_name = ''B'', ix_index_name = ''IDX'', ix_parent_table_name = None,
       ix_is_null_filtered = False, ix_is_unique = False\<rparr>]"

definition family_catalog :: catalog where
  "family_catalog =
     \<lparr>column_rows = Inr
        [\<lparr>col_table_name = ''B'', col_column_name = ''id'', col_ordinal_position = 1,
          col_spanner_type = ''INT64'', col_nullable = False\<rparr>,
         \<lparr>col_table_name = ''B'', col_column_name = ''a'', col_ordinal_position = 2,
          col_spanner_type = ''STRING(MAX)'', col_nullable = True\<rparr>,
         \<lparr>col_table_name = ''A'', col_column_name = ''id'', col_ordinal_position = 1,
          col_spanner_type = ''INT64'', col_nullable = False\<rparr>],
      table_rows = Inr
        [\<lparr>tbl_table_name = ''B'', tbl_parent_table_name = Some ''A''\<rparr>,
         \<lparr>tbl_table_name = ''A'', tbl_parent_table_name = None\<rparr>],
      index_column_rows = Inr family_index_column_rows,
      index_rows = Inr family_index_rows\<rparr>"

definition orphan_catalog :: catalog where
  "orphan_catalog =
     \<lparr>column_rows = Inr
        [\<lparr>col_table_name = ''A'', col_column_name = ''id'', col_ordinal_position = 1,
          col_spanner_type = ''INT64'', col_nullable = False\<rparr>],
      table_rows = Inr
        [\<lparr>tbl_table_name = ''A'', tbl_parent_table_name = None\<rparr>,
         \<lparr>tbl_table_name = ''B'', tbl_parent_table_name = None\<rparr>],
      index_column_rows = Inr
        [\<lparr>ic_table_name = ''A'', ic_index_name = ''PRIMARY_KEY'', ic_column_name = ''id'',
          ic_ordinal_position = Some 1\<rparr>],
      index_rows = Inr
        [\<lparr>ix_table_name = ''A'', ix_index_name = ''PRIMARY_KEY'', ix_parent_table_name = None,
          ix_is_null_filtered = False, ix_is_unique = True\<rparr>]\<rparr>"

text \<open>
  A catalog whose table query and index query fail: the row-fetch collaborator answers
  the column query and the index-column query and raises on the other two.
\<close>

definition flaky_catalog :: catalog where
  "flaky_catalog =
     \<lparr>column_rows = Inr
        [\<lparr>col_table_name = ''A'', col_column_name = ''id'', col_ordinal_position = 1,
          col_spanner_type = ''INT64'', col_nullable = False\<rparr>],
      table_rows = Inl FetchError,
      index_column_rows = Inr [],
      index_rows = Inl FetchError\<rparr>"


subsection \<open>Well-formed states\<close>





text \<open>
  No query has been sent twice, and none of a pair whose cache is still empty.
\<close>

definition fetched_once :: "state \<Rightarrow> bool" where
  "fetched_once st \<longleftrightarrow>
     distinct (fetched st) \<and>
     (tables_cache st = None \<longrightarrow>
        ColumnsQuery \<notin> set (fetched st) \<and> TablesQuery \<notin> set (fetched st)) \<and>
     (indexes_cache st = None \<longrightarrow>
        IndexColumnsQuery \<notin> set (fetched st) \<and> IndexesQuery \<notin> set (fetched st))"


section \<open>Properties of the field types\<close>

lemma take_le: "take n s = p \<Longrightarrow> m \<le> n \<Longrightarrow> take m s = take m p"
  by (metis min.absorb1 take_take)

lemma matches_take2: "matches t s \<Longrightarrow> take 2 s = take 2 (type_ddl t)"
proof (cases t)
  case String
  assume "matches t s"
  with String have "take 7 s = ''STRING(''" by (simp split: if_splits)
  from take_le[OF this, of 2] show ?thesis using String by simp
next
  case StringArray
  assume "matches t s"
  with StringArray have "take 13 s = ''ARRAY<STRING(''" by (simp split: if_splits)
  from take_le[OF this, of 2] show ?thesis using StringArray by simp
next
  case Timestamp
  assume "matches t s"
  with Timestamp have "take 9 s = ''TIMESTAMP''" by simp
  from take_le[OF this, of 2] show ?thesis using Timestamp by simp
next
  case BytesBase64
  assume "matches t s"
  with BytesBase64 have "take 6 s = ''BYTES(''" by (simp split: if_splits)
  from take_le[OF this, of 2] show ?thesis using BytesBase64 by simp
qed simp_all

lemma matches_take7:
  "matches t s \<Longrightarrow> t = IntArray \<or> t = StringArray \<Longrightarrow> take 7 s = take 7 (type_ddl t)"
proof (cases t)
  case StringArray
  assume "matches t s"
  with StringArray have "take 13 s = ''ARRAY<STRING(''" by (simp split: if_splits)
  from take_le[OF this, of 7] show ?thesis using StringArray by simp
qed simp_all

lemma matches_unique:
  assumes "matches a s" "matches b s" shows "a = b"
proof -
  have k2: "take 2 (type_ddl a) = take 2 (type_ddl b)"
    using matches_take2[OF assms(1)] matches_take2[OF assms(2)] by simp
  have "a = b \<or> ((a = IntArray \<or> a = StringArray) \<and> (b = IntArray \<or> b = StringArray))"
    using k2 by (cases a; cases b) simp_all
  then show ?thesis
  proof
    assume "a = b" then show ?thesis .
  next
    assume h: "(a = IntArray \<or> a = StringArray) \<and> (b = IntArray \<or> b = StringArray)"
    then have "take 7 (type_ddl a) = take 7 (type_ddl b)"
      using matches_take7[OF assms(1)] matches_take7[OF assms(2)] by simp
    with h show ?thesis by auto
  qed
qed

lemma first_match_none:
  "\<forall>t \<in> set ts. \<not> matches t s \<Longrightarrow> first_match ts s = Inl SpannerError"
  by (induction ts) auto

lemma first_match_some:
  "t \<in> set ts \<Longrightarrow> matches t s \<Longrightarrow> first_match ts s = Inr t"
  by (induction ts) (auto dest: matches_unique)

lemma first_match_set:
  assumes "set ts = set us" shows "first_match ts s = first_match us s"
proof (cases "\<exists>t \<in> set ts. matches t s")
  case True
  then obtain t where t: "t \<in> set ts" "matches t s" by blast
  then have "first_match ts s = Inr t" by (rule first_match_some)
  moreover from t assms have "first_match us s = Inr t" by (simp add: first_match_some)
  ultimately show ?thesis by simp
next
  case False
  then have "first_match ts s = Inl SpannerError" by (simp add: first_match_none)
  moreover from False assms have "first_match us s = Inl SpannerError"
    by (simp add: first_match_none)
  ultimately show ?thesis by simp
qed

lemma filter_at_most_one:
  "distinct xs \<Longrightarrow> (\<And>a b. P a \<Longrightarrow> P b \<Longrightarrow> a = b) \<Longrightarrow> length (filter P xs) \<le> 1"
proof (induction xs)
  case Nil
  then show ?case by simp
next
  case (Cons x xs)
  show ?case
  proof (cases "P x")
    case True
    have "filter P xs = []"
    proof (rule ccontr)
      assume "filter P xs \<noteq> []"
      then obtain y where "y \<in> set xs" "P y"
        by (metis filter_False)
      with True Cons.prems show False by auto
    qed
    with True show ?thesis by simp
  next
    case False
    with Cons show ?thesis by simp
  qed
qed

text \<open>
  Claim C8. For every type string \<open>s\<close> at most one of the eight field types has
  \<open>matches s\<close> true: two types that match are the same type, and the list of the types
  in \<open>ALL_TYPES\<close> that match has at most one element. So the first match over any
  list with the same eight types, in whatever order, is the first match over
  \<open>ALL_TYPES\<close>.
\<close>

theorem matches_at_most_one:
  "(\<forall>a b. matches a s \<and> matches b s \<longrightarrow> a = b) \<and>
   length (filter (\<lambda>t. matches t s) ALL_TYPES) \<le> 1 \<and>
   (\<forall>ts. set ts = set ALL_TYPES \<longrightarrow> first_match ts s = resolve_type s)"
proof (intro conjI allI impI)
  fix a b assume "matches a s \<and> matches b s"
  then show "a = b" by (blast intro: matches_unique)
next
  have "distinct ALL_TYPES" by (simp add: ALL_TYPES_def)
  then show "length (filter (\<lambda>t. matches t s) ALL_TYPES) \<le> 1"
    by (rule filter_at_most_one) (rule matches_unique)
next
  fix ts assume "set ts = set ALL_TYPES"
  then show "first_match ts s = resolve_type s"
    unfolding resolve_type_def by (rule first_match_set)
qed

theorem matches_at_most_one_witness:
  "matches String ''STRING(36)'' \<and>
   first_match (rev ALL_TYPES) ''STRING(36)'' = Inr String \<and>
   resolve_type ''STRING(36)'' = Inr String \<and>
   length (filter (\<lambda>t. matches t ''STRING(36)'') ALL_TYPES) = 1"
proof -
  have m: "matches String ''STRING(36)''" by simp
  have r: "resolve_type ''STRING(36)'' = Inr String"
    by (simp add: resolve_type_def ALL_TYPES_def)
  have "set (rev ALL_TYPES) = set ALL_TYPES" by simp
  with matches_at_most_one [of "''STRING(36)''"]
  have "first_match (rev ALL_TYPES) ''STRING(36)'' = resolve_type ''STRING(36)''" by blast
  moreover have "length (filter (\<lambda>t. matches t ''STRING(36)'') ALL_TYPES) = 1"
    by (simp add: ALL_TYPES_def)
  ultimately show ?thesis using m r by simp
qed

section \<open>Properties of Field\<close>

text \<open>
  Claim C5. For every field type, length and \<open>allow_commit_timestamp\<close> flag (and every
  \<open>nullable\<close> and \<open>primary_key\<close>), the constructor raises \<open>ValidationError\<close> exactly
  when the length is negative, or positive with a type that does not support a length, or
  \<open>allow_commit_timestamp\<close> is set with a type that does not support it; in every other
  case it returns the field with the attributes it was given.
\<close>

theorem Field_init_raises_iff:
  "Field_init ft nl pk len act =
     (if len < 0 \<or> (0 < len \<and> \<not> support_length ft) \<or>
         (act \<and> \<not> support_commit_timestamp ft)
      then Inl ValidationError
      else Inr \<lparr>name = None, field_type = ft, nullable = nl, primary_key = pk,
                field_length = len, allow_commit_timestamp = act, position = None\<rparr>)"
  by (auto simp: Field_init_def Let_def)

theorem Field_init_raises_iff_witness:
  "Field_init Boolean False False 5 False = Inl ValidationError \<and>
   Field_init Integer False False 5 False = Inl ValidationError \<and>
   Field_init String False False (- 1) False = Inl ValidationError \<and>
   Field_init String False False 0 True = Inl ValidationError \<and>
   Field_init String False False 5 False =
     Inr \<lparr>name = None, field_type = String, nullable = False, primary_key = False,
          field_length = 5, allow_commit_timestamp = False, position = None\<rparr>"
  using Field_init_raises_iff [of Boolean False False 5 False]
    Field_init_raises_iff [of Integer False False 5 False]
    Field_init_raises_iff [of String False False "- 1" False]
    Field_init_raises_iff [of String False False 0 True]
    Field_init_raises_iff [of String False False 5 False]
  by simp

text \<open>
  Claim C6. \<open>validate\<close> of \<open>None\<close> raises \<open>ValidationError\<close> if and only if the field is
  not nullable and otherwise returns; \<open>validate\<close> of any value other than \<open>None\<close> is
  the result of the type's \<open>validate_type\<close> on it, so it succeeds if and only if the
  type's validator accepts the value.
\<close>

theorem validate_spec:
  "(validate b64 f PyNone = Inl ValidationError) = (\<not> nullable f) \<and>
   (validate b64 f PyNone = Inr ()) = nullable f \<and>
   (v \<noteq> PyNone \<longrightarrow> validate b64 f v = validate_type b64 (field_type f) v) \<and>
   (v \<noteq> PyNone \<longrightarrow>
      (validate b64 f v = Inr ()) = (validate_type b64 (field_type f) v = Inr ()))"
  by (simp add: validate_def)

theorem validate_spec_witness:
  "(\<exists>f. Field_init String False False 0 False = Inr f \<and>
        validate (\<lambda>bs. True) f PyNone = Inl ValidationError \<and>
        validate (\<lambda>bs. True) f (PyInt 42) = Inl ValidationError \<and>
        validate (\<lambda>bs. True) f (PyStr ''x'') = Inr ()) \<and>
   (\<exists>f. Field_init String True False 0 False = Inr f \<and>
        validate (\<lambda>bs. True) f PyNone = Inr ())"
proof -
  let ?f = "\<lparr>name = None, field_type = String, nullable = False, primary_key = False,
             field_length = 0, allow_commit_timestamp = False, position = None\<rparr>"
  let ?g = "\<lparr>name = None, field_type = String, nullable = True, primary_key = False,
             field_length = 0, allow_commit_timestamp = False, position = None\<rparr>"
  have f: "Field_init String False False 0 False = Inr ?f"
    and g: "Field_init String True False 0 False = Inr ?g"
    by (simp_all add: Field_init_def)
  have n: "PyInt 42 \<noteq> PyNone" "PyStr ''x'' \<noteq> PyNone" by simp_all
  have "validate (\<lambda>bs. True) ?f PyNone = Inl ValidationError"
    using validate_spec [of "\<lambda>bs. True" ?f PyNone] by simp
  moreover have "validate (\<lambda>bs. True) ?f (PyInt 42) = Inl ValidationError"
    using validate_spec [of "\<lambda>bs. True" ?f "PyInt 42"] n by simp
  moreover have "validate (\<lambda>bs. True) ?f (PyStr ''x'') = Inr ()"
    using validate_spec [of "\<lambda>bs. True" ?f "PyStr ''x''"] n by simp
  moreover have "validate (\<lambda>bs. True) ?g PyNone = Inr ()"
    using validate_spec [of "\<lambda>bs. True" ?g PyNone] by simp
  ultimately show ?thesis using f g by simp
qed

text \<open>
  Claim C7. A \<open>Timestamp\<close> field constructed with \<open>allow_commit_timestamp=True\<close> (the
  constructor accepts it with length 0 only) has the DDL
  \<open>TIMESTAMP OPTIONS (allow_commit_timestamp=true)\<close> when it is nullable and
  \<open>TIMESTAMP NOT NULL OPTIONS (allow_commit_timestamp=true)\<close> when it is not. For every
  field, the DDL is the type's DDL with the length filled in, then \<open>NOT NULL\<close> when the
  field is not nullable, then the options clause when the flag is set: the options always
  come after the nullability keyword.
\<close>

theorem ddl_commit_timestamp:
  "(\<exists>f. Field_init Timestamp nl pk 0 True = Inr f) \<and>
   (Field_init Timestamp nl pk len True = Inr f \<longrightarrow>
      ddl f = (if nl then ''TIMESTAMP OPTIONS (allow_commit_timestamp=true)''
               else ''TIMESTAMP NOT NULL OPTIONS (allow_commit_timestamp=true)'')) \<and>
   ddl g =
     (if field_length g \<noteq> 0
      then replace ''(MAX)'' (''('' @ str_int (field_length g) @ '')'') (type_ddl (field_type g))
      else type_ddl (field_type g)) @
     (if nullable g then [] else '' NOT NULL'') @
     (if allow_commit_timestamp g then '' OPTIONS (allow_commit_timestamp=true)'' else [])"
  by (auto simp: Field_init_def ddl_def Let_def split: if_splits)

theorem ddl_commit_timestamp_witness:
  "(\<exists>f. Field_init Timestamp True False 0 True = Inr f \<and>
        ddl f = ''TIMESTAMP OPTIONS (allow_commit_timestamp=true)'') \<and>
   (\<exists>f. Field_init Timestamp False False 0 True = Inr f \<and>
        ddl f = ''TIMESTAMP NOT NULL OPTIONS (allow_commit_timestamp=true)'')"
proof -
  obtain f where f: "Field_init Timestamp True False 0 True = Inr f"
    using ddl_commit_timestamp [of True False] by blast
  obtain g where g: "Field_init Timestamp False False 0 True = Inr g"
    using ddl_commit_timestamp [of False False] by blast
  have "ddl f = (if True then ''TIMESTAMP OPTIONS (allow_commit_timestamp=true)''
                 else ''TIMESTAMP NOT NULL OPTIONS (allow_commit_timestamp=true)'')"
    using ddl_commit_timestamp [of True False 0 f] f by blast
  then have df: "ddl f = ''TIMESTAMP OPTIONS (allow_commit_timestamp=true)''"
    by simp
  have "ddl g = (if False then ''TIMESTAMP OPTIONS (allow_commit_timestamp=true)''
                 else ''TIMESTAMP NOT NULL OPTIONS (allow_commit_timestamp=true)'')"
    using ddl_commit_timestamp [of False False 0 g] g by blast
  then have dg: "ddl g = ''TIMESTAMP NOT NULL OPTIONS (allow_commit_timestamp=true)''"
    by simp
  show ?thesis using f g df dg by blast
qed

text \<open>
  Claim C10. The validator of \<open>Float\<close> accepts every \<open>int\<close> and every \<open>float\<close> (and so a
  nullable \<open>Float\<close> field validates 42), and the validator of \<open>Integer\<close> accepts
  \<open>True\<close> and \<open>False\<close>, since a \<open>bool\<close> is an \<open>int\<close>: the two checks accept more than
  "a float" and "an int that is not a bool". \<open>Float\<close> accepts the two \<open>bool\<close> values
  as well.
\<close>

theorem Float_Integer_validators_loose:
  "validate_type b64 Float (PyInt i) = Inr () \<and>
   validate_type b64 Float (PyFloat x) = Inr () \<and>
   validate_type b64 Float (PyBool b) = Inr () \<and>
   validate_type b64 Integer (PyBool b) = Inr () \<and>
   validate_type b64 Integer (PyInt i) = Inr () \<and>
   (\<exists>f. Field_init Float True False 0 False = Inr f \<and> validate b64 f (PyInt 42) = Inr ())"
  by (simp add: Field_init_def validate_def)

theorem Float_Integer_validators_loose_witness:
  "validate_type (\<lambda>bs. True) Float (PyInt 42) = Inr () \<and>
   validate_type (\<lambda>bs. True) Integer (PyBool True) = Inr () \<and>
   validate_type (\<lambda>bs. True) Integer (PyBool False) = Inr ()"
  using Float_Integer_validators_loose [of "\<lambda>bs. True" 42 0 True]
    Float_Integer_validators_loose [of "\<lambda>bs. True" 42 0 False]
  by simp

section \<open>Dictionaries\<close>

lemma map_of_setitem: "map_of (setitem k v d) k' = (if k' = k then Some v else map_of d k')"
  by (induction d) auto




section \<open>What the loops leave alone\<close>

lemma column_loop_frame:
  "column_loop rows cd st = (r, st') \<Longrightarrow>
     model_heap st' = model_heap st \<and> tables_cache st' = tables_cache st \<and>
     indexes_cache st' = indexes_cache st \<and> models_cache st' = models_cache st \<and>
     fetched st' = fetched st \<and> (\<exists>new. field_heap st' = field_heap st @ new)"
proof (induction rows arbitrary: cd st)
  case Nil
  then show ?case by simp
next
  case (Cons row rows)
  show ?case
  proof (cases "resolve_type (col_spanner_type row)")
    case (Inl e)
    with Cons.prems show ?thesis by simp
  next
    case (Inr ft)
    show ?thesis
    proof (cases "Field_init ft (col_nullable row) False 0 False")
      case (Inl e)
      with Inr Cons.prems show ?thesis by simp
    next
      case f: (Inr new_field)
      from Cons.prems Inr f obtain cd1 st1 where
        rec: "column_loop rows cd1 st1 = (r, st')" and
        st1: "st1 = st\<lparr>field_heap := field_heap st @ [new_field\<lparr>name := Some (col_column_name row), position := Some (col_ordinal_position row)\<rparr>]\<rparr>"
        by (simp add: Let_def)
      from Cons.IH[OF rec] st1 show ?thesis by auto
    qed
  qed
qed

lemma tables_cached: "tables db st = (Inr t, st') \<Longrightarrow> tables_cache st' = Some t"
  by (auto simp: tables_def Let_def split: option.splits sum.splits prod.splits)

lemma indexes_cached: "indexes db st = (Inr i, st') \<Longrightarrow> indexes_cache st' = Some i"
  by (auto simp: indexes_def Let_def split: option.splits sum.splits prod.splits)

lemma models_cached: "models pidx chk db st = (Inr m, st') \<Longrightarrow> models_cache st' = Some m"
  by (auto simp: models_def Let_def split: option.splits sum.splits prod.splits)

lemma tables_hit: "tables_cache st = Some t \<Longrightarrow> tables db st = (Inr t, st)"
  by (simp add: tables_def)

lemma indexes_hit: "indexes_cache st = Some i \<Longrightarrow> indexes db st = (Inr i, st)"
  by (simp add: indexes_def)

lemma models_hit: "models_cache st = Some m \<Longrightarrow> models pidx chk db st = (Inr m, st)"
  by (simp add: models_def)

lemma tables_build_fetched:
  "tables_cache st = None \<Longrightarrow> tables db st = (Inr t, st') \<Longrightarrow>
     fetched st' = fetched st @ [ColumnsQuery, TablesQuery]"
  by (auto simp: tables_def Let_def split: option.splits sum.splits prod.splits
      dest!: column_loop_frame)

lemma indexes_build_fetched:
  "indexes_cache st = None \<Longrightarrow> indexes db st = (Inr t, st') \<Longrightarrow>
     fetched st' = fetched st @ [IndexColumnsQuery, IndexesQuery]"
  by (auto simp: indexes_def Let_def split: option.splits sum.splits prod.splits)

section \<open>The passes of models\<close>

lemma assign_primary_key_simps [simp]:
  "name (assign_primary_key pk f) = name f"
  "primary_key (assign_primary_key pk f) = (case name f of None \<Rightarrow> False | Some n \<Rightarrow> n \<in> pk)"
  "assign_primary_key pk (assign_primary_key pk f) = assign_primary_key pk f"
  by (simp_all add: assign_primary_key_def)

lemma length_primary_key_loop [simp]: "length (primary_key_loop as pk h) = length h"
  by (induction as arbitrary: h) auto

lemma primary_key_loop_nth:
  "a < length h \<Longrightarrow>
     primary_key_loop as pk h ! a = (if a \<in> set as then assign_primary_key pk (h ! a) else h ! a)"
proof (induction as arbitrary: h)
  case Nil
  then show ?case by simp
next
  case (Cons x as)
  let ?h = "h[x := assign_primary_key pk (h ! x)]"
  have "a < length ?h" using Cons.prems by simp
  then have "primary_key_loop as pk ?h ! a =
      (if a \<in> set as then assign_primary_key pk (?h ! a) else ?h ! a)"
    by (rule Cons.IH)
  then show ?case using Cons.prems by (cases "a = x") simp_all
qed

lemma pass1_frame:
  "pass1 pidx tbls ixs ms0 st = (r, st') \<Longrightarrow>
     tables_cache st' = tables_cache st \<and> models_cache st' = models_cache st \<and>
     fetched st' = fetched st \<and> length (field_heap st') = length (field_heap st) \<and>
     (\<forall>a < length (field_heap st). name (field_heap st' ! a) = name (field_heap st ! a)) \<and>
     (indexes_cache st' = indexes_cache st \<or> (\<exists>e i. r = Inl e \<and> indexes_cache st' = Some i)) \<and>
     (\<exists>new. model_heap st' = model_heap st @ new)"
proof (induction tbls arbitrary: ms0 st)
  case Nil
  then show ?case by simp
next
  case (Cons e tbls)
  obtain tn td where e: "e = (tn, td)" by (cases e)
  show ?case
  proof (cases "map_of ixs tn")
    case None
    with Cons.prems e show ?thesis by auto
  next
    case (Some tix)
    show ?thesis
    proof (cases "map_of tix pidx")
      case None
      with Some Cons.prems e show ?thesis by auto
    next
      case idx: (Some idx)
      define st1 where "st1 = st\<lparr>field_heap :=
          primary_key_loop (map snd (table_fields td)) (set (columns idx)) (field_heap st)\<rparr>"
      define st2 where "st2 = st1\<lparr>model_heap :=
          model_heap st1 @ [new_model tn td tix (length (model_heap st))]\<rparr>"
      from Cons.prems e Some idx
      have rec: "pass1 pidx tbls ixs (setitem tn (length (model_heap st)) ms0) st2 = (r, st')"
        by (simp add: Let_def st1_def st2_def)
      have names: "\<forall>a < length (field_heap st). name (field_heap st2 ! a) = name (field_heap st ! a)"
        by (simp add: st2_def st1_def primary_key_loop_nth)
      from Cons.IH[OF rec] names show ?thesis
        by (auto simp: st2_def st1_def)
    qed
  qed
qed

lemma resolve_interleaved_frame:
  "resolve_interleaved ms a st = (r, st') \<Longrightarrow>
     field_heap st' = field_heap st \<and> tables_cache st' = tables_cache st \<and>
     indexes_cache st' = indexes_cache st \<and> models_cache st' = models_cache st \<and>
     fetched st' = fetched st \<and> length (model_heap st') = length (model_heap st) \<and>
     (\<forall>b. b \<noteq> a \<longrightarrow> model_heap st' ! b = model_heap st ! b)"
  by (auto simp: resolve_interleaved_def split: interleaved.splits if_splits option.splits)

lemma finalize_frame:
  "finalize chk a st = (r, st') \<Longrightarrow>
     field_heap st' = field_heap st \<and> tables_cache st' = tables_cache st \<and>
     indexes_cache st' = indexes_cache st \<and> models_cache st' = models_cache st \<and>
     fetched st' = fetched st \<and> length (model_heap st') = length (model_heap st) \<and>
     (\<forall>b. b \<noteq> a \<longrightarrow> model_heap st' ! b = model_heap st ! b)"
  by (auto simp: finalize_def split: if_splits)

lemma pass2_frame:
  "pass2 chk as ms st = (r, st') \<Longrightarrow>
     field_heap st' = field_heap st \<and> tables_cache st' = tables_cache st \<and>
     indexes_cache st' = indexes_cache st \<and> models_cache st' = models_cache st \<and>
     fetched st' = fetched st \<and> length (model_heap st') = length (model_heap st) \<and>
     (\<forall>b. b \<notin> set as \<longrightarrow> model_heap st' ! b = model_heap st ! b)"
proof (induction as arbitrary: st)
  case Nil
  then show ?case by simp
next
  case (Cons a as)
  obtain r1 st1 where s1: "resolve_interleaved ms a st = (r1, st1)" by (cases "resolve_interleaved ms a st")
  note f1 = resolve_interleaved_frame[OF s1]
  show ?case
  proof (cases r1)
    case (Inl e)
    with Cons.prems s1 f1 show ?thesis by simp
  next
    case (Inr u)
    obtain r2 st2 where s2: "finalize chk a st1 = (r2, st2)" by (cases "finalize chk a st1")
    note f2 = finalize_frame[OF s2]
    show ?thesis
    proof (cases r2)
      case (Inl e)
      with Cons.prems s1 s2 Inr f1 f2 show ?thesis by simp
    next
      case r2: (Inr u2)
      with Cons.prems s1 s2 Inr have rec: "pass2 chk as ms st2 = (r, st')" by simp
      from Cons.IH[OF rec] f1 f2 show ?thesis by simp
    qed
  qed
qed

section \<open>The accessors and the caches\<close>

lemma tables_effect:
  assumes "tables db st = (r, st')"
  shows "indexes_cache st' = indexes_cache st" "models_cache st' = models_cache st"
    "model_heap st' = model_heap st" "\<exists>new. field_heap st' = field_heap st @ new"
    "tables_cache st \<noteq> None \<Longrightarrow> st' = st"
    "tables_cache st = None \<Longrightarrow> \<exists>qs. fetched st' = fetched st @ ColumnsQuery # qs"
    "tables_cache st = None \<Longrightarrow> r = Inl e \<Longrightarrow> tables_cache st' = None"
  using assms
  by (auto simp: tables_def Let_def split: option.splits sum.splits prod.splits
      dest!: column_loop_frame)

lemma indexes_effect:
  assumes "indexes db st = (r, st')"
  shows "tables_cache st' = tables_cache st" "models_cache st' = models_cache st"
    "model_heap st' = model_heap st" "field_heap st' = field_heap st"
    "indexes_cache st \<noteq> None \<Longrightarrow> st' = st"
    "indexes_cache st = None \<Longrightarrow> \<exists>qs. fetched st' = fetched st @ IndexColumnsQuery # qs"
    "indexes_cache st = None \<Longrightarrow> r = Inl e \<Longrightarrow> indexes_cache st' = None"
  using assms
  by (auto simp: indexes_def Let_def split: option.splits sum.splits prod.splits)

lemma models_build:
  assumes "models pidx chk db st = (Inr m, st')" "models_cache st = None"
  shows "\<exists>tbls st1 ixs st2 st3 st4.
     tables db st = (Inr tbls, st1) \<and> indexes db st1 = (Inr ixs, st2) \<and>
     pass1 pidx tbls ixs [] st2 = (Inr m, st3) \<and>
     pass2 chk (map snd m) m st3 = (Inr (), st4) \<and> st' = st4\<lparr>models_cache := Some m\<rparr>"
  using assms
  by (auto simp: models_def split: option.splits sum.splits prod.splits)


lemma tables_fetched_once:
  assumes "fetched_once st" "tables db st = (Inr t, st')"
  shows "fetched_once st'"
proof (cases "tables_cache st")
  case None
  from tables_build_fetched[OF None assms(2)] tables_cached[OF assms(2)]
    tables_effect(1)[OF assms(2)] assms(1) None
  show ?thesis by (auto simp: fetched_once_def)
next
  case (Some a)
  with tables_effect(5)[OF assms(2)] assms(1) show ?thesis by simp
qed

lemma indexes_fetched_once:
  assumes "fetched_once st" "indexes db st = (Inr t, st')"
  shows "fetched_once st'"
proof (cases "indexes_cache st")
  case None
  from indexes_build_fetched[OF None assms(2)] indexes_cached[OF assms(2)]
    indexes_effect(1)[OF assms(2)] assms(1) None
  show ?thesis by (auto simp: fetched_once_def)
next
  case (Some a)
  with indexes_effect(5)[OF assms(2)] assms(1) show ?thesis by simp
qed

lemma models_fetched_once:
  assumes "fetched_once st" "models pidx chk db st = (Inr m, st')"
  shows "fetched_once st'"
proof (cases "models_cache st")
  case None
  from models_build[OF assms(2) None] obtain tbls st1 ixs st2 st3 st4 where
    t: "tables db st = (Inr tbls, st1)" and i: "indexes db st1 = (Inr ixs, st2)" and
    p1: "pass1 pidx tbls ixs [] st2 = (Inr m, st3)" and
    p2: "pass2 chk (map snd m) m st3 = (Inr (), st4)" and
    st': "st' = st4\<lparr>models_cache := Some m\<rparr>" by blast
  have "fetched_once st2"
    using indexes_fetched_once[OF tables_fetched_once[OF assms(1) t] i] .
  with pass1_frame[OF p1] pass2_frame[OF p2] st' show ?thesis
    by (auto simp: fetched_once_def)
next
  case (Some a)
  with models_hit[OF Some, of pidx chk db] assms show ?thesis by simp
qed

lemma returned_fetched_once: "returned pidx chk st \<Longrightarrow> fetched_once st"
proof (induction rule: returned.induct)
  case (fresh st)
  then show ?case by (simp add: fetched_once_def)
next
  case (tables_returned st db t st')
  then show ?case by (blast intro: tables_fetched_once)
next
  case (indexes_returned st db i st')
  then show ?case by (blast intro: indexes_fetched_once)
next
  case (models_returned st db m st')
  then show ?case by (blast intro: models_fetched_once)
qed

text \<open>
  Claim C9, as the code has it. When \<open>models()\<close> has returned a mapping, a second call
  returns the same mapping and leaves the state as it is, so it sends no query, whatever
  the catalog would answer; the same holds for \<open>tables()\<close> and \<open>indexes()\<close>. In a
  process in which no call of an accessor has raised, no query has been sent twice. (A
  call that raises leaves its cache empty, and the next call sends the queries again:
  \<open>tables_requeries_after_failure\<close> below.)
\<close>

theorem accessors_memoized:
  "(tables db st = (Inr t, st') \<longrightarrow> tables db' st' = (Inr t, st')) \<and>
   (indexes db st = (Inr i, st') \<longrightarrow> indexes db' st' = (Inr i, st')) \<and>
   (models pidx chk db st = (Inr m, st') \<longrightarrow>
      models pidx chk db' st' = (Inr m, st') \<and>
      fetched (snd (models pidx chk db' st')) = fetched st') \<and>
   (returned pidx chk st \<longrightarrow> distinct (fetched st))"
proof (intro conjI impI)
  assume "tables db st = (Inr t, st')"
  then show "tables db' st' = (Inr t, st')" by (intro tables_hit tables_cached)
next
  assume "indexes db st = (Inr i, st')"
  then show "indexes db' st' = (Inr i, st')" by (intro indexes_hit indexes_cached)
next
  assume "models pidx chk db st = (Inr m, st')"
  then show m: "models pidx chk db' st' = (Inr m, st')" by (intro models_hit models_cached)
  then show "fetched (snd (models pidx chk db' st')) = fetched st'" by simp
next
  assume "returned pidx chk st"
  then show "distinct (fetched st)" by (auto dest: returned_fetched_once simp: fetched_once_def)
qed


theorem accessors_memoized_witness:
  "fst (models ''PRIMARY_KEY'' (\<lambda>s a. True) family_catalog initial_state) =
     Inr [(''B'', 0), (''A'', 1)] \<and>
   models ''PRIMARY_KEY'' (\<lambda>s a. True) orphan_catalog
     (snd (models ''PRIMARY_KEY'' (\<lambda>s a. True) family_catalog initial_state)) =
     models ''PRIMARY_KEY'' (\<lambda>s a. True) family_catalog initial_state \<and>
   fetched (snd (models ''PRIMARY_KEY'' (\<lambda>s a. True) family_catalog initial_state)) =
     [ColumnsQuery, TablesQuery, IndexColumnsQuery, IndexesQuery] \<and>
   distinct (fetched (snd (models ''PRIMARY_KEY'' (\<lambda>s a. True) family_catalog initial_state)))"
proof -
  let ?r = "models ''PRIMARY_KEY'' (\<lambda>s a. True) family_catalog initial_state"
  have f: "fst ?r = Inr [(''B'', 0), (''A'', 1)]" by code_simp
  then have r: "?r = (Inr [(''B'', 0), (''A'', 1)], snd ?r)" by (metis prod.collapse)
  have q: "fetched (snd ?r) = [ColumnsQuery, TablesQuery, IndexColumnsQuery, IndexesQuery]"
    by code_simp
  have "returned ''PRIMARY_KEY'' (\<lambda>s a. True) initial_state"
    by (rule returned.fresh) (simp_all add: initial_state_def)
  then have ret: "returned ''PRIMARY_KEY'' (\<lambda>s a. True) (snd ?r)"
    using r by (rule returned.models_returned)
  from accessors_memoized [of family_catalog initial_state _ "snd ?r" orphan_catalog _
      "''PRIMARY_KEY''" "\<lambda>s a. True" "[(''B'', 0), (''A'', 1)]"] r
  have again: "models ''PRIMARY_KEY'' (\<lambda>s a. True) orphan_catalog (snd ?r) = ?r" by simp
  from accessors_memoized [of _ "snd ?r" _ _ _ _ "''PRIMARY_KEY''" "\<lambda>s a. True"] ret
  have "distinct (fetched (snd ?r))" by blast
  with f q again show ?thesis by simp
qed

text \<open>
  Claim C9 as worded fails: "each accessor performs its metadata queries at most once per
  process, on first call only". With a catalog whose table query raises, the first
  \<open>tables()\<close> raises and caches nothing, and the second call sends the column query
  and the table query again.
\<close>

theorem tables_requeries_after_failure:
  "fst (tables flaky_catalog initial_state) = Inl FetchError \<and>
   tables_cache (snd (tables flaky_catalog initial_state)) = None \<and>
   fetched (snd (tables flaky_catalog initial_state)) = [ColumnsQuery, TablesQuery] \<and>
   fetched (snd (tables flaky_catalog (snd (tables flaky_catalog initial_state)))) =
     [ColumnsQuery, TablesQuery, ColumnsQuery, TablesQuery] \<and>
   \<not> distinct (fetched (snd (tables flaky_catalog (snd (tables flaky_catalog initial_state)))))"
  by code_simp

section \<open>The index columns\<close>

lemma dd_get_setitem: "dd_get dflt (setitem k v d) k' = (if k' = k then v else dd_get dflt d k')"
  by (simp add: dd_get_def map_of_setitem)

lemma index_column_loop_lookup:
  "index_column_loop rows ic sc = (ic', sc') \<Longrightarrow>
     dd_get [] ic' (t, i) = dd_get [] ic (t, i) @ map ic_column_name (key_rows t i rows) \<and>
     dd_get [] sc' (t, i) = dd_get [] sc (t, i) @ map ic_column_name (storing_rows t i rows)"
proof (induction rows arbitrary: ic sc)
  case Nil
  then show ?case by (simp add: key_rows_def storing_rows_def)
next
  case (Cons r rows)
  let ?key = "(ic_table_name r, ic_index_name r)"
  show ?case
  proof (cases "ic_ordinal_position r")
    case None
    with Cons.prems have
      "index_column_loop rows ic (setitem ?key (dd_get [] sc ?key @ [ic_column_name r]) sc) = (ic', sc')"
      by (simp add: Let_def)
    from Cons.IH[OF this] None show ?thesis
      by (auto simp: dd_get_setitem key_rows_def storing_rows_def)
  next
    case (Some n)
    with Cons.prems have
      "index_column_loop rows (setitem ?key (dd_get [] ic ?key @ [ic_column_name r]) ic) sc = (ic', sc')"
      by (simp add: Let_def)
    from Cons.IH[OF this] Some show ?thesis
      by (auto simp: dd_get_setitem key_rows_def storing_rows_def)
  qed
qed

lemma index_loop_has_index:
  "has_index ic sc t i acc \<or> (t, i) \<in> (\<lambda>s. (ix_table_name s, ix_index_name s)) ` set rows \<Longrightarrow>
     has_index ic sc t i (index_loop rows ic sc acc)"
proof (induction rows arbitrary: acc)
  case Nil
  then show ?case by simp
next
  case (Cons s rows)
  let ?new = "\<lparr>columns = dd_get [] ic (ix_table_name s, ix_index_name s),
      index_name = ix_index_name s, parent = ix_parent_table_name s,
      null_filtered = ix_is_null_filtered s, unique = ix_is_unique s,
      storing_columns = dd_get [] sc (ix_table_name s, ix_index_name s)\<rparr>"
  let ?acc = "setitem (ix_table_name s)
      (setitem (ix_index_name s) ?new (dd_get [] acc (ix_table_name s))) acc"
  have step: "index_loop (s # rows) ic sc acc = index_loop rows ic sc ?acc"
    by (simp add: Let_def)
  have "has_index ic sc t i ?acc \<or> (t, i) \<in> (\<lambda>s. (ix_table_name s, ix_index_name s)) ` set rows"
  proof (cases "(ix_table_name s, ix_index_name s) = (t, i)")
    case True
    then have "has_index ic sc t i ?acc"
      by (auto simp: has_index_def map_of_setitem)
    then show ?thesis ..
  next
    case False
    show ?thesis
    proof (cases "has_index ic sc t i acc")
      case True
      with False have "has_index ic sc t i ?acc"
        by (auto simp: has_index_def map_of_setitem dd_get_def)
      then show ?thesis ..
    next
      case no: False
      with Cons.prems False show ?thesis by auto
    qed
  qed
  from Cons.IH[OF this] step show ?case by simp
qed

lemma indexes_build:
  assumes "indexes_cache st = None" "indexes db st = (Inr ixs, st')"
    "index_column_rows db = Inr rows" "index_rows db = Inr irows"
  shows "ixs = index_loop irows (fst (index_column_loop rows [] []))
             (snd (index_column_loop rows [] [])) []"
  using assms
  by (auto simp: indexes_def Let_def split: prod.splits)


text \<open>
  Claim C4. When \<open>indexes()\<close> builds its mapping from the index-column rows \<open>rows\<close>,
  then for every table \<open>T\<close> and index \<open>IDX\<close> that has an index row, the index stored
  under \<open>T\<close> and \<open>IDX\<close> has as \<open>columns\<close> the column names of the rows of that index
  with an ordinal position, in the order fetched, and its \<open>storing_columns\<close> hold exactly
  the column names of the rows of that index without one. When the rows of the index were
  fetched in ascending order of ordinal position, \<open>columns\<close> is the column names of
  those rows sorted by ordinal position.
\<close>

theorem indexes_columns:
  assumes "indexes_cache st = None" "index_column_rows db = Inr rows"
    "index_rows db = Inr irows" "indexes db st = (Inr ixs, st')"
    "s \<in> set irows" "ix_table_name s = T" "ix_index_name s = IDX"
  shows "\<exists>tix idx. map_of ixs T = Some tix \<and> map_of tix IDX = Some idx \<and>
     columns idx = map ic_column_name (key_rows T IDX rows) \<and>
     set (storing_columns idx) = ic_column_name ` set (storing_rows T IDX rows) \<and>
     (sorted (map (the \<circ> ic_ordinal_position) (key_rows T IDX rows)) \<longrightarrow>
        columns idx =
          map ic_column_name (sort_key (the \<circ> ic_ordinal_position) (key_rows T IDX rows)))"
proof -
  obtain ic sc where loop: "index_column_loop rows [] [] = (ic, sc)"
    by (cases "index_column_loop rows [] []")
  from indexes_build[OF assms(1,4,2,3)] loop
  have ixs: "ixs = index_loop irows ic sc []" by simp
  from assms(5-7) have "(T, IDX) \<in> (\<lambda>s. (ix_table_name s, ix_index_name s)) ` set irows"
    by force
  then have "has_index ic sc T IDX (index_loop irows ic sc [])"
    by (intro index_loop_has_index) simp
  with ixs obtain tix idx where
    found: "map_of ixs T = Some tix" "map_of tix IDX = Some idx" and
    cols: "columns idx = dd_get [] ic (T, IDX)" and
    stor: "storing_columns idx = dd_get [] sc (T, IDX)"
    by (auto simp: has_index_def)
  from index_column_loop_lookup[OF loop, of T IDX] cols stor
  have c: "columns idx = map ic_column_name (key_rows T IDX rows)"
    and s: "storing_columns idx = map ic_column_name (storing_rows T IDX rows)"
    by (simp_all add: dd_get_def)
  have "sorted (map (the \<circ> ic_ordinal_position) (key_rows T IDX rows)) \<longrightarrow>
      columns idx =
        map ic_column_name (sort_key (the \<circ> ic_ordinal_position) (key_rows T IDX rows))"
    using c by (simp add: sort_key_id_if_sorted)
  with found c s show ?thesis by simp
qed

theorem indexes_columns_witness:
  "\<exists>ixs tix idx. fst (indexes family_catalog initial_state) = Inr ixs \<and>
     map_of ixs ''B'' = Some tix \<and> map_of tix ''IDX'' = Some idx \<and>
     columns idx = [''a'', ''b''] \<and> set (storing_columns idx) = {''c''} \<and>
     columns idx =
       map ic_column_name
         (sort_key (the \<circ> ic_ordinal_position)
            (key_rows ''B'' ''IDX'' family_index_column_rows))"
proof -
  obtain ixs st' where run: "indexes family_catalog initial_state = (Inr ixs, st')"
    by (simp add: indexes_def initial_state_def family_catalog_def Let_def split_def)
  let ?s = "\<lparr>ix_table_name = ''B'', ix_index_name = ''IDX'', ix_parent_table_name = None,
             ix_is_null_filtered = False, ix_is_unique = False\<rparr>"
  have h: "indexes_cache initial_state = None"
    "index_column_rows family_catalog = Inr family_index_column_rows"
    "index_rows family_catalog = Inr family_index_rows"
    "?s \<in> set family_index_rows" "ix_table_name ?s = ''B''" "ix_index_name ?s = ''IDX''"
    by (simp_all add: initial_state_def family_catalog_def family_index_rows_def)
  have k: "map ic_column_name (key_rows ''B'' ''IDX'' family_index_column_rows) = [''a'', ''b'']"
    "ic_column_name ` set (storing_rows ''B'' ''IDX'' family_index_column_rows) = {''c''}"
    by (simp_all add: key_rows_def storing_rows_def family_index_column_rows_def)
  have srt: "sorted (map (the \<circ> ic_ordinal_position)
      (key_rows ''B'' ''IDX'' family_index_column_rows))"
    by (simp add: key_rows_def family_index_column_rows_def)
  from indexes_columns [OF h(1) h(2) h(3) run h(4) h(5) h(6)] srt
  obtain tix idx where "map_of ixs ''B'' = Some tix" "map_of tix ''IDX'' = Some idx"
    "columns idx = map ic_column_name (key_rows ''B'' ''IDX'' family_index_column_rows)"
    "set (storing_columns idx) =
       ic_column_name ` set (storing_rows ''B'' ''IDX'' family_index_column_rows)"
    "columns idx =
       map ic_column_name
         (sort_key (the \<circ> ic_ordinal_position)
            (key_rows ''B'' ''IDX'' family_index_column_rows))"
    by blast
  with k run show ?thesis by auto
qed

section \<open>The tables cache is well formed\<close>











section \<open>The first pass\<close>










section \<open>The second pass\<close>




section \<open>The result of a build of models\<close>








section \<open>Every state of a process is well formed\<close>







section \<open>The claims about models\<close>







section \<open>A build that fails\<close>








section \<open>The entries of tables and the table rows\<close>

lemma table_loop_other:
  "n \<notin> tbl_table_name ` set rows \<Longrightarrow> map_of (table_loop rows cd acc) n = map_of acc n"
  by (induction rows arbitrary: acc) (auto simp: Let_def map_of_setitem)

lemma table_loop_row:
  "r \<in> set rows \<Longrightarrow> distinct (map tbl_table_name rows) \<Longrightarrow>
     map_of (table_loop rows cd acc) (tbl_table_name r) =
       Some \<lparr>parent_table = tbl_parent_table_name r,
             table_fields = dd_get [] cd (tbl_table_name r)\<rparr>"
proof (induction rows arbitrary: acc)
  case Nil
  then show ?case by simp
next
  case (Cons r0 rows)
  show ?case
  proof (cases "r = r0")
    case True
    with Cons.prems(2) have "tbl_table_name r \<notin> tbl_table_name ` set rows" by auto
    from table_loop_other[OF this] True show ?thesis
      by (simp add: Let_def map_of_setitem)
  next
    case False
    with Cons.prems have "r \<in> set rows" "distinct (map tbl_table_name rows)" by auto
    from Cons.IH[OF this] show ?thesis by (simp add: Let_def)
  qed
qed

text \<open>
  When \<open>tables()\<close> builds its mapping from table rows with distinct table names, the
  entry of a table has the parent that the table's row names.
\<close>

lemma tables_entry_of_row:
  assumes "tables_cache st = None" "tables db st = (Inr t, st')" "table_rows db = Inr rows"
    "r \<in> set rows" "distinct (map tbl_table_name rows)"
  shows "\<exists>td. map_of t (tbl_table_name r) = Some td \<and>
     parent_table td = tbl_parent_table_name r"
proof -
  from assms(1,2,3) obtain cd where "t = table_loop rows cd []"
    by (auto simp: tables_def Let_def split: sum.splits prod.splits)
  with table_loop_row[OF assms(4,5), of cd "[]"] show ?thesis by simp
qed

end
